theory Spec2Isabelle
  imports
    Complex_Main
    "HOL-Library.Char_ord"
    "HOL-Library.List_Lexorder"
    "HOL-Library.Multiset"
    "HOL-Library.Signed_Division"
begin

section \<open>The search server of search-server/, embedded in HOL\<close>

text \<open>
  Conventions of the embedding.

  \<^item> \<open>std::map<K, V>\<close> is an association list kept in ascending key order, the order in
    which the C++ container iterates; \<open>find\<close>/\<open>count\<close> is \<open>map_of\<close>.
  \<^item> \<open>std::string\<close> is \<open>string\<close>. A \<open>std::string_view\<close> is recorded by the characters it
    referred to when it was created (\<open>string_view\<close>). The keys of
    \<open>document_to_word_freqs_\<close> are views into the vector \<open>words\<close>, a local of
    \<open>AddDocument\<close>; once that call has returned, the characters such a key yields are not
    fixed by the source, and every operation that reads one takes them as the parameter
    \<open>reads\<close>.
  \<^item> \<open>double\<close> is \<open>real\<close>: arithmetic on term frequencies and relevances is exact, rounding
    is outside the model.
  \<^item> \<open>int\<close> values are mathematical integers; where the source does \<open>int\<close> arithmetic the
    32-bit wrap-around is written out (\<open>wrap32\<close>).
  \<^item> A C++ exception is a value of type \<open>error\<close>; the integer division by zero of
    \<open>ComputeAverageRating\<close> is the value \<open>division_by_zero\<close>, after which the process does
    not continue.
  \<^item> \<open>SplitIntoWords\<close> (declared in string_processing.h) and \<open>std::sort\<close> are defined
    outside the source files embedded here; the operations take them as the parameters
    \<open>split\<close> and \<open>srt\<close>. Of \<open>srt\<close> the statements assume no more than the C++ standard
    promises of \<open>std::sort\<close> (\<open>std_sort_contract\<close>).
\<close>

subsection \<open>Ordered maps\<close>

type_synonym ('k, 'v) std_map = "('k \<times> 'v) list"

type_synonym string_view = string

text \<open>\<open>m[k] = v\<close>: replace the entry of \<open>k\<close>, or insert it at its place in key order.\<close>

fun map_put :: "'k::linorder \<Rightarrow> 'v \<Rightarrow> ('k, 'v) std_map \<Rightarrow> ('k, 'v) std_map" where
  "map_put k v [] = [(k, v)]"
| "map_put k v ((k', v') # rest) =
     (if k = k' then (k, v) # rest
      else if k < k' then (k, v) # (k', v') # rest
      else (k', v') # map_put k v rest)"

text \<open>\<open>m.erase(k)\<close>.\<close>

definition map_erase :: "'k \<Rightarrow> ('k, 'v) std_map \<Rightarrow> ('k, 'v) std_map" where
  "map_erase k m = filter (\<lambda>p. fst p \<noteq> k) m"

text \<open>\<open>m.emplace(k, v)\<close>: inserts only when \<open>k\<close> has no entry yet.\<close>

definition map_emplace :: "'k::linorder \<Rightarrow> 'v \<Rightarrow> ('k, 'v) std_map \<Rightarrow> ('k, 'v) std_map" where
  "map_emplace k v m = (case map_of m k of None \<Rightarrow> map_put k v m | Some _ \<Rightarrow> m)"

text \<open>The value that \<open>m[k]\<close> reads: the entry of \<open>k\<close>, or the value-initialised default.\<close>

definition map_get :: "'v \<Rightarrow> ('k, 'v) std_map \<Rightarrow> 'k \<Rightarrow> 'v" where
  "map_get dflt m k = (case map_of m k of None \<Rightarrow> dflt | Some v \<Rightarrow> v)"

subsection \<open>Data model\<close>

text \<open>
  Modelled from the spec: document.h is not among the source files. The spec gives the
  status variants (ACTUAL, IRRELEVANT, BANNED, REMOVED) and a hit as
  (id, relevance, rating), the order in which \<open>FindAllDocuments\<close> initialises it.
\<close>

datatype DocumentStatus = ACTUAL | IRRELEVANT | BANNED | REMOVED

record Document =
  doc_id :: int
  doc_relevance :: real
  doc_rating :: int

record DocumentData =
  rating :: int
  status :: DocumentStatus

record SearchServer =
  stop_words :: "string set"
  word_to_document_freqs :: "(string, (int, real) std_map) std_map"
  document_to_word_freqs :: "(int, (string_view, real) std_map) std_map"
  documents :: "(int, DocumentData) std_map"
  document_ids :: "int set"

record Query =
  plus_words :: "string list"
  minus_words :: "string list"

datatype error = invalid_argument | out_of_range | division_by_zero

definition EPSILON :: real where
  "EPSILON = 1 / 1000000"

definition MAX_RESULT_DOCUMENT_COUNT :: nat where
  "MAX_RESULT_DOCUMENT_COUNT = 5"

text \<open>The constructor: the stop words, and four empty containers.\<close>

definition SearchServer_new :: "string set \<Rightarrow> SearchServer" where
  "SearchServer_new stops =
     \<lparr>stop_words = stops, word_to_document_freqs = [], document_to_word_freqs = [],
      documents = [], document_ids = {}\<rparr>"

subsection \<open>Tokens\<close>

text \<open>
  Modelled from the spec: string_processing.h is not among the source files. The spec
  says that text is split on whitespace into tokens; this splitter cuts at the space
  character and drops empty tokens. It is used for concrete inputs only; every general
  statement below holds for an arbitrary splitter \<open>split\<close>.
\<close>

fun split_acc :: "string \<Rightarrow> string \<Rightarrow> string list" where
  "split_acc word [] = (if word = [] then [] else [word])"
| "split_acc word (c # cs) =
     (if c = CHR '' '' then (if word = [] then split_acc [] cs else word # split_acc [] cs)
      else split_acc (word @ [c]) cs)"

definition SplitIntoWords :: "string \<Rightarrow> string list" where
  "SplitIntoWords text = split_acc [] text"

text \<open>\<open>IsValidWord\<close>: no character in the range \<open>'\0' \<le> c < ' '\<close>.\<close>

definition IsValidWord :: "string \<Rightarrow> bool" where
  "IsValidWord word = (\<not> list_ex (\<lambda>c. (of_char c :: nat) < 32) word)"

definition IsStopWord :: "SearchServer \<Rightarrow> string \<Rightarrow> bool" where
  "IsStopWord s word = (word \<in> stop_words s)"

fun no_stop_loop :: "SearchServer \<Rightarrow> string list \<Rightarrow> error + string list" where
  "no_stop_loop s [] = Inr []"
| "no_stop_loop s (word # rest) =
     (if \<not> IsValidWord word then Inl invalid_argument
      else (case no_stop_loop s rest of
              Inl e \<Rightarrow> Inl e
            | Inr words \<Rightarrow> Inr (if IsStopWord s word then words else word # words)))"

definition SplitIntoWordsNoStop ::
  "(string \<Rightarrow> string list) \<Rightarrow> SearchServer \<Rightarrow> string \<Rightarrow> error + string list" where
  "SplitIntoWordsNoStop split s text = no_stop_loop s (split text)"

subsection \<open>Ratings\<close>

definition wrap32 :: "int \<Rightarrow> int" where
  "wrap32 x = (x + 2147483648) mod 4294967296 - 2147483648"

text \<open>
  \<open>ComputeAverageRating\<close>: the sum is accumulated in an \<open>int\<close>, the divisor is the size
  cast to \<open>int\<close>, and \<open>/\<close> truncates toward zero. A zero divisor, and the quotient
  \<open>INT_MIN / -1\<close>, have no value.
\<close>

definition ComputeAverageRating :: "int list \<Rightarrow> error + int" where
  "ComputeAverageRating ratings =
     (let rating_sum = fold (\<lambda>rating acc. wrap32 (acc + rating)) ratings 0;
          n = wrap32 (int (length ratings))
      in if n = 0 \<or> (rating_sum = - 2147483648 \<and> n = - 1) then Inl division_by_zero
         else Inr (rating_sum sdiv n))"

subsection \<open>Adding and removing documents\<close>

text \<open>
  One round of the loop of \<open>AddDocument\<close>: both frequency maps get \<open>+= inv_word_count\<close>.
  The key of the second is a view of \<open>word\<close>, an element of the local \<open>words\<close>, alive during
  the loop.
\<close>

definition add_word :: "int \<Rightarrow> real \<Rightarrow> string \<Rightarrow> SearchServer \<Rightarrow> SearchServer" where
  "add_word document_id inv_word_count word s =
     (let w2d = word_to_document_freqs s;
          docs_of_word = map_get [] w2d word;
          d2w = document_to_word_freqs s;
          words_of_doc = map_get [] d2w document_id
      in s\<lparr>word_to_document_freqs :=
              map_put word
                (map_put document_id (map_get 0 docs_of_word document_id + inv_word_count)
                   docs_of_word) w2d,
            document_to_word_freqs :=
              map_put document_id
                (map_put word (map_get 0 words_of_doc word + inv_word_count) words_of_doc)
                d2w\<rparr>)"

text \<open>
  \<open>AddDocument\<close> returns what the call raised (\<open>None\<close> when it returned normally) and the
  state in which it left the server.
\<close>

definition AddDocument ::
  "(string \<Rightarrow> string list) \<Rightarrow> SearchServer \<Rightarrow> int \<Rightarrow> string \<Rightarrow> DocumentStatus \<Rightarrow> int list
     \<Rightarrow> error option \<times> SearchServer" where
  "AddDocument split s document_id document st ratings =
     (if document_id < 0 \<or> map_of (documents s) document_id \<noteq> None
      then (Some invalid_argument, s)
      else (case SplitIntoWordsNoStop split s document of
              Inl e \<Rightarrow> (Some e, s)
            | Inr words \<Rightarrow>
                (let inv_word_count = 1 / real (length words);
                     s1 = fold (add_word document_id inv_word_count) words s
                 in (case ComputeAverageRating ratings of
                       Inl e \<Rightarrow> (Some e, s1)
                     | Inr r \<Rightarrow>
                         (None,
                          s1\<lparr>documents :=
                                map_emplace document_id \<lparr>rating = r, status = st\<rparr> (documents s1),
                              document_ids := insert document_id (document_ids s1)\<rparr>)))))"

definition GetWordFrequencies :: "SearchServer \<Rightarrow> int \<Rightarrow> (string_view, real) std_map" where
  "GetWordFrequencies s document_id = map_get [] (document_to_word_freqs s) document_id"

text \<open>\<open>word_to_document_freqs_[word].erase(document_id)\<close>.\<close>

definition erase_doc_from_word :: "int \<Rightarrow> string \<Rightarrow> SearchServer \<Rightarrow> SearchServer" where
  "erase_doc_from_word document_id word s =
     s\<lparr>word_to_document_freqs :=
         map_put word (map_erase document_id (map_get [] (word_to_document_freqs s) word))
           (word_to_document_freqs s)\<rparr>"

definition erase_document :: "int \<Rightarrow> SearchServer \<Rightarrow> SearchServer" where
  "erase_document document_id s =
     s\<lparr>document_to_word_freqs := map_erase document_id (document_to_word_freqs s),
       documents := map_erase document_id (documents s),
       document_ids := document_ids s - {document_id}\<rparr>"

text \<open>
  \<open>RemoveDocument\<close> iterates over the map \<open>GetWordFrequencies\<close> returns and converts each
  key to a \<open>std::string\<close>: \<open>reads\<close> gives the characters the view yields at that moment.
\<close>

definition RemoveDocument :: "(string_view \<Rightarrow> string) \<Rightarrow> SearchServer \<Rightarrow> int \<Rightarrow> SearchServer" where
  "RemoveDocument reads s document_id =
     erase_document document_id
       (fold (erase_doc_from_word document_id)
          (map reads (map fst (GetWordFrequencies s document_id))) s)"

definition RemoveDocument_seq ::
  "(string_view \<Rightarrow> string) \<Rightarrow> SearchServer \<Rightarrow> int \<Rightarrow> SearchServer" where
  "RemoveDocument_seq reads s document_id = RemoveDocument reads s document_id"

text \<open>
  The \<open>parallel_policy\<close> overload copies the keys into the vector \<open>result\<close> and erases with
  a parallel \<open>for_each\<close>, which converts each element to a \<open>std::string\<close>. The order in
  which the elements are visited is the parameter \<open>sched\<close>, taken when it is a
  rearrangement of \<open>result\<close>.
\<close>

definition RemoveDocument_par ::
  "(string_view \<Rightarrow> string) \<Rightarrow> string_view list \<Rightarrow> SearchServer \<Rightarrow> int \<Rightarrow> SearchServer" where
  "RemoveDocument_par reads sched s document_id =
     (let result = map fst (GetWordFrequencies s document_id);
          visited = (if mset sched = mset result then sched else result)
      in erase_document document_id
           (fold (erase_doc_from_word document_id) (map reads visited) s))"

subsection \<open>Sequences of index operations\<close>

text \<open>
  The mutating operations a caller can issue. An \<open>AddDocument\<close> that throws leaves the
  server to its caller in the state the call reached; after the division by zero there is
  no further state.
\<close>

datatype operation =
    Add int string DocumentStatus "int list"
  | Remove "string_view \<Rightarrow> string" int
  | RemoveSeq "string_view \<Rightarrow> string" int
  | RemovePar "string_view \<Rightarrow> string" "string_view list" int

fun apply_op :: "(string \<Rightarrow> string list) \<Rightarrow> SearchServer \<Rightarrow> operation \<Rightarrow> SearchServer option" where
  "apply_op split s (Add document_id document st ratings) =
     (let r = AddDocument split s document_id document st ratings
      in if fst r = Some division_by_zero then None else Some (snd r))"
| "apply_op split s (Remove reads document_id) = Some (RemoveDocument reads s document_id)"
| "apply_op split s (RemoveSeq reads document_id) = Some (RemoveDocument_seq reads s document_id)"
| "apply_op split s (RemovePar reads sched document_id) =
     Some (RemoveDocument_par reads sched s document_id)"

fun run :: "(string \<Rightarrow> string list) \<Rightarrow> SearchServer \<Rightarrow> operation list \<Rightarrow> SearchServer option" where
  "run split s [] = Some s"
| "run split s (op # ops) =
     (case apply_op split s op of None \<Rightarrow> None | Some s' \<Rightarrow> run split s' ops)"

text \<open>
  The frequency of a (term, document) pair as each of the two maps records it; in the
  second map the term is the view stored as key.
\<close>

definition freq_by_word :: "SearchServer \<Rightarrow> string \<Rightarrow> int \<Rightarrow> real option" where
  "freq_by_word s word document_id =
     (case map_of (word_to_document_freqs s) word of
        None \<Rightarrow> None
      | Some docs_of_word \<Rightarrow> map_of docs_of_word document_id)"

definition freq_by_document :: "SearchServer \<Rightarrow> int \<Rightarrow> string_view \<Rightarrow> real option" where
  "freq_by_document s document_id word =
     (case map_of (document_to_word_freqs s) document_id of
        None \<Rightarrow> None
      | Some words_of_doc \<Rightarrow> map_of words_of_doc word)"

subsection \<open>Queries\<close>

record QueryWord =
  data :: string
  is_minus :: bool
  is_stop :: bool

definition ParseQueryWord :: "SearchServer \<Rightarrow> string \<Rightarrow> error + QueryWord" where
  "ParseQueryWord s text =
     (if text = [] then Inl invalid_argument
      else (let minus = (hd text = CHR ''-'');
                word = (if minus then tl text else text)
            in if word = [] then Inl invalid_argument
               else if hd word = CHR ''-'' then Inl invalid_argument
               else if IsValidWord word
               then Inr \<lparr>data = word, is_minus = minus, is_stop = IsStopWord s word\<rparr>
               else Inl invalid_argument))"

fun parse_loop :: "SearchServer \<Rightarrow> string list \<Rightarrow> error + Query" where
  "parse_loop s [] = Inr \<lparr>plus_words = [], minus_words = []\<rparr>"
| "parse_loop s (word # rest) =
     (case ParseQueryWord s word of
        Inl e \<Rightarrow> Inl e
      | Inr query_word \<Rightarrow>
          (case parse_loop s rest of
             Inl e \<Rightarrow> Inl e
           | Inr q \<Rightarrow>
               Inr (if is_stop query_word then q
                    else if is_minus query_word
                    then q\<lparr>minus_words := data query_word # minus_words q\<rparr>
                    else q\<lparr>plus_words := data query_word # plus_words q\<rparr>)))"

text \<open>With \<open>is_parallel\<close>, both lists are sorted and adjacent duplicates removed.\<close>

definition ParseQuery ::
  "(string \<Rightarrow> string list) \<Rightarrow> SearchServer \<Rightarrow> string \<Rightarrow> bool \<Rightarrow> error + Query" where
  "ParseQuery split s text is_parallel =
     (case parse_loop s (split text) of
        Inl e \<Rightarrow> Inl e
      | Inr q \<Rightarrow>
          Inr (if is_parallel
               then \<lparr>plus_words = remdups_adj (sort (plus_words q)),
                     minus_words = remdups_adj (sort (minus_words q))\<rparr>
               else q))"

subsection \<open>Matching one document\<close>

text \<open>
  \<open>word_to_document_freqs_.count(word) != 0 && word_to_document_freqs_.at(word).count(id)\<close>
\<close>

definition word_in_document :: "SearchServer \<Rightarrow> int \<Rightarrow> string \<Rightarrow> bool" where
  "word_in_document s document_id word =
     (case map_of (word_to_document_freqs s) word of
        None \<Rightarrow> False
      | Some docs_of_word \<Rightarrow> map_of docs_of_word document_id \<noteq> None)"

text \<open>
  Each of the two bodies of \<open>MatchDocument\<close> holds its parsed query in a function-local
  \<open>static\<close>, initialised by the first call that gets as far as the declaration and read by
  every later one. The two statics are the program state the matching calls thread.
\<close>

record MatchStatics =
  query_plain :: "Query option"
  query_parallel :: "Query option"

definition statics_initial :: MatchStatics where
  "statics_initial = \<lparr>query_plain = None, query_parallel = None\<rparr>"

text \<open>The part of the plain overload after the query is at hand.\<close>

definition match_plain :: "SearchServer \<Rightarrow> Query \<Rightarrow> int \<Rightarrow> error + string list \<times> DocumentStatus" where
  "match_plain s query document_id =
     (case map_of (documents s) document_id of
        None \<Rightarrow> Inl out_of_range
      | Some document_data \<Rightarrow>
          Inr (if list_ex (word_in_document s document_id) (minus_words query) then []
               else filter (word_in_document s document_id) (plus_words query),
               status document_data))"

definition MatchDocument ::
  "(string \<Rightarrow> string list) \<Rightarrow> SearchServer \<Rightarrow> MatchStatics \<Rightarrow> string \<Rightarrow> int
     \<Rightarrow> (error + string list \<times> DocumentStatus) \<times> MatchStatics" where
  "MatchDocument split s statics raw_query document_id =
     (if document_id \<notin> document_ids s then (Inl out_of_range, statics)
      else (case (case query_plain statics of
                    None \<Rightarrow> ParseQuery split s raw_query True
                  | Some query \<Rightarrow> Inr query) of
              Inl e \<Rightarrow> (Inl e, statics)
            | Inr query \<Rightarrow>
                (match_plain s query document_id, statics\<lparr>query_plain := Some query\<rparr>)))"

definition MatchDocument_seq ::
  "(string \<Rightarrow> string list) \<Rightarrow> SearchServer \<Rightarrow> MatchStatics \<Rightarrow> string \<Rightarrow> int
     \<Rightarrow> (error + string list \<times> DocumentStatus) \<times> MatchStatics" where
  "MatchDocument_seq split s statics raw_query document_id =
     MatchDocument split s statics raw_query document_id"

definition match_parallel :: "SearchServer \<Rightarrow> Query \<Rightarrow> int \<Rightarrow> error + string list \<times> DocumentStatus" where
  "match_parallel s query document_id =
     (case map_of (documents s) document_id of
        None \<Rightarrow> Inl out_of_range
      | Some document_data \<Rightarrow>
          Inr (if list_ex (word_in_document s document_id) (minus_words query) then []
               else remdups_adj (sort (filter (word_in_document s document_id) (plus_words query))),
               status document_data))"

definition MatchDocument_par ::
  "(string \<Rightarrow> string list) \<Rightarrow> SearchServer \<Rightarrow> MatchStatics \<Rightarrow> string \<Rightarrow> int
     \<Rightarrow> (error + string list \<times> DocumentStatus) \<times> MatchStatics" where
  "MatchDocument_par split s statics raw_query document_id =
     (if document_id \<notin> document_ids s then (Inl out_of_range, statics)
      else (case (case query_parallel statics of
                    None \<Rightarrow> ParseQuery split s raw_query False
                  | Some query \<Rightarrow> Inr query) of
              Inl e \<Rightarrow> (Inl e, statics)
            | Inr query \<Rightarrow>
                (match_parallel s query document_id, statics\<lparr>query_parallel := Some query\<rparr>)))"

subsection \<open>Ranking\<close>

definition GetDocumentCount :: "SearchServer \<Rightarrow> int" where
  "GetDocumentCount s = wrap32 (int (length (documents s)))"

text \<open>
  \<open>log(GetDocumentCount() * 1.0 / word_to_document_freqs_.at(word).size())\<close>. On an empty
  entry the C++ quotient is infinite or not a number where the quotient of reals is 0;
  the caller's loop over that entry then has no round that reads the value.
\<close>

definition ComputeWordInverseDocumentFreq :: "SearchServer \<Rightarrow> string \<Rightarrow> error + real" where
  "ComputeWordInverseDocumentFreq s word =
     (case map_of (word_to_document_freqs s) word of
        None \<Rightarrow> Inl out_of_range
      | Some docs_of_word \<Rightarrow>
          Inr (ln (real_of_int (GetDocumentCount s) * 1 / real (length docs_of_word))))"

type_synonym DocumentPredicate = "int \<Rightarrow> DocumentStatus \<Rightarrow> int \<Rightarrow> bool"

text \<open>The loop over the documents of one plus word.\<close>

fun accumulate_word ::
  "SearchServer \<Rightarrow> DocumentPredicate \<Rightarrow> real \<Rightarrow> (int, real) std_map \<Rightarrow> (int, real) std_map
     \<Rightarrow> error + (int, real) std_map" where
  "accumulate_word s document_predicate inverse_document_freq [] document_to_relevance =
     Inr document_to_relevance"
| "accumulate_word s document_predicate inverse_document_freq ((document_id, term_freq) # rest)
     document_to_relevance =
     (case map_of (documents s) document_id of
        None \<Rightarrow> Inl out_of_range
      | Some document_data \<Rightarrow>
          accumulate_word s document_predicate inverse_document_freq rest
            (if document_predicate document_id (status document_data) (rating document_data)
             then map_put document_id
                    (map_get 0 document_to_relevance document_id + term_freq * inverse_document_freq)
                    document_to_relevance
             else document_to_relevance))"

fun plus_loop ::
  "SearchServer \<Rightarrow> DocumentPredicate \<Rightarrow> string list \<Rightarrow> (int, real) std_map
     \<Rightarrow> error + (int, real) std_map" where
  "plus_loop s document_predicate [] document_to_relevance = Inr document_to_relevance"
| "plus_loop s document_predicate (word # rest) document_to_relevance =
     (case map_of (word_to_document_freqs s) word of
        None \<Rightarrow> plus_loop s document_predicate rest document_to_relevance
      | Some docs_of_word \<Rightarrow>
          (case ComputeWordInverseDocumentFreq s word of
             Inl e \<Rightarrow> Inl e
           | Inr inverse_document_freq \<Rightarrow>
               (case accumulate_word s document_predicate inverse_document_freq docs_of_word
                       document_to_relevance of
                  Inl e \<Rightarrow> Inl e
                | Inr accumulated \<Rightarrow> plus_loop s document_predicate rest accumulated)))"

text \<open>The loop over the minus words: every document of the word is erased.\<close>

definition minus_step :: "SearchServer \<Rightarrow> string \<Rightarrow> (int, real) std_map \<Rightarrow> (int, real) std_map" where
  "minus_step s word document_to_relevance =
     (case map_of (word_to_document_freqs s) word of
        None \<Rightarrow> document_to_relevance
      | Some docs_of_word \<Rightarrow> fold map_erase (map fst docs_of_word) document_to_relevance)"

fun emit_documents :: "SearchServer \<Rightarrow> (int, real) std_map \<Rightarrow> error + Document list" where
  "emit_documents s [] = Inr []"
| "emit_documents s ((document_id, relevance) # rest) =
     (case map_of (documents s) document_id of
        None \<Rightarrow> Inl out_of_range
      | Some document_data \<Rightarrow>
          (case emit_documents s rest of
             Inl e \<Rightarrow> Inl e
           | Inr matched \<Rightarrow>
               Inr (\<lparr>doc_id = document_id, doc_relevance = relevance,
                     doc_rating = rating document_data\<rparr> # matched)))"

text \<open>\<open>FindAllDocuments\<close>, \<open>sequenced_policy\<close> overload.\<close>

definition FindAllDocuments ::
  "SearchServer \<Rightarrow> Query \<Rightarrow> DocumentPredicate \<Rightarrow> error + Document list" where
  "FindAllDocuments s query document_predicate =
     (case plus_loop s document_predicate (plus_words query) [] of
        Inl e \<Rightarrow> Inl e
      | Inr accumulated \<Rightarrow>
          emit_documents s (fold (minus_step s) (minus_words query) accumulated))"

text \<open>The comparator handed to \<open>sort\<close>.\<close>

definition ranks_before :: "Document \<Rightarrow> Document \<Rightarrow> bool" where
  "ranks_before lhs rhs =
     (doc_relevance lhs > doc_relevance rhs
      \<or> (\<bar>doc_relevance lhs - doc_relevance rhs\<bar> < EPSILON \<and> doc_rating lhs > doc_rating rhs))"

text \<open>
  \<open>FindTopDocuments\<close> with the sequential policy; \<open>srt\<close> stands for \<open>std::sort\<close>, applied to
  a comparator and a vector.
\<close>

definition FindTopDocuments ::
  "((Document \<Rightarrow> Document \<Rightarrow> bool) \<Rightarrow> Document list \<Rightarrow> Document list)
     \<Rightarrow> (string \<Rightarrow> string list) \<Rightarrow> SearchServer \<Rightarrow> string \<Rightarrow> DocumentPredicate
     \<Rightarrow> error + Document list" where
  "FindTopDocuments srt split s raw_query document_predicate =
     (case ParseQuery split s raw_query True of
        Inl e \<Rightarrow> Inl e
      | Inr query \<Rightarrow>
          (case FindAllDocuments s query document_predicate of
             Inl e \<Rightarrow> Inl e
           | Inr matched_documents \<Rightarrow>
               (let sorted_documents = srt ranks_before matched_documents
                in Inr (if length sorted_documents > MAX_RESULT_DOCUMENT_COUNT
                        then take MAX_RESULT_DOCUMENT_COUNT sorted_documents
                        else sorted_documents))))"

definition FindTopDocuments_status ::
  "((Document \<Rightarrow> Document \<Rightarrow> bool) \<Rightarrow> Document list \<Rightarrow> Document list)
     \<Rightarrow> (string \<Rightarrow> string list) \<Rightarrow> SearchServer \<Rightarrow> string \<Rightarrow> DocumentStatus
     \<Rightarrow> error + Document list" where
  "FindTopDocuments_status srt split s raw_query st =
     FindTopDocuments srt split s raw_query (\<lambda>document_id document_status rating. document_status = st)"

text \<open>An insertion sort, the instance of \<open>srt\<close> for concrete inputs.\<close>

fun insert_by :: "('a \<Rightarrow> 'a \<Rightarrow> bool) \<Rightarrow> 'a \<Rightarrow> 'a list \<Rightarrow> 'a list" where
  "insert_by before x [] = [x]"
| "insert_by before x (y # ys) = (if before y x then y # insert_by before x ys else x # y # ys)"

definition insertion_sort :: "('a \<Rightarrow> 'a \<Rightarrow> bool) \<Rightarrow> 'a list \<Rightarrow> 'a list" where
  "insertion_sort before xs = foldr (insert_by before) xs []"




subsection \<open>The sharded accumulator: \<open>ConcurrentMap::Erase\<close>\<close>

text \<open>
  A \<open>ConcurrentMap<int, double>\<close> is its vector of buckets, each the \<open>local\<close> map of the
  bucket; the mutex of bucket \<open>i\<close> appears in the events \<open>Lock i\<close> and \<open>Unlock i\<close> that a
  member function emits, next to its accesses to the bucket's map, in program order.
\<close>

type_synonym ConcurrentMap = "(int, real) std_map list"

datatype bucket_event = Lock nat | Unlock nat | Find nat int | EraseKey nat int

text \<open>\<open>static_cast<uint64_t>(key) % megamap_.size()\<close>, the bucket that \<open>operator[]\<close> selects.\<close>

definition select :: "ConcurrentMap \<Rightarrow> int \<Rightarrow> nat" where
  "select megamap key = nat (key mod 18446744073709551616) mod length megamap"

text \<open>
  The loop of \<open>Erase\<close> from bucket \<open>i\<close> on: \<open>find\<close> on the bucket's map, and, when the key
  is there, a \<open>lock_guard\<close> around \<open>erase\<close>.
\<close>

fun Erase_from :: "nat \<Rightarrow> int \<Rightarrow> ConcurrentMap \<Rightarrow> ConcurrentMap \<times> bucket_event list" where
  "Erase_from i key [] = ([], [])"
| "Erase_from i key (item # rest) =
     (let later = Erase_from (Suc i) key rest
      in if map_of item key \<noteq> None
         then (map_erase key item # fst later,
               [Find i key, Lock i, EraseKey i key, Unlock i] @ snd later)
         else (item # fst later, Find i key # snd later))"

definition Erase :: "ConcurrentMap \<Rightarrow> int \<Rightarrow> ConcurrentMap \<times> bucket_event list" where
  "Erase megamap key = Erase_from 0 key megamap"

text \<open>
  A trace keeps the lock discipline when every access to a bucket's map happens while the
  bucket's lock is held; \<open>held\<close> is the set of locks held so far.
\<close>

fun lock_discipline :: "nat set \<Rightarrow> bucket_event list \<Rightarrow> bool" where
  "lock_discipline held [] = True"
| "lock_discipline held (Lock i # rest) = lock_discipline (insert i held) rest"
| "lock_discipline held (Unlock i # rest) = lock_discipline (held - {i}) rest"
| "lock_discipline held (Find i key # rest) = (i \<in> held \<and> lock_discipline held rest)"
| "lock_discipline held (EraseKey i key # rest) = (i \<in> held \<and> lock_discipline held rest)"

subsection \<open>Predicates used in the statements\<close>

definition int32 :: "int \<Rightarrow> bool" where
  "int32 x = (- 2147483648 \<le> x \<and> x < 2147483648)"

text \<open>Every running sum of the list, started at \<open>acc\<close>, is an \<open>int\<close> value.\<close>

fun sums_fit :: "int \<Rightarrow> int list \<Rightarrow> bool" where
  "sums_fit acc [] = int32 acc"
| "sums_fit acc (r # rs) = (int32 acc \<and> sums_fit (acc + r) rs)"

text \<open>
  The document store has exactly the live ids, and the document-to-term map has entries
  for live ids only.
\<close>

definition index_wf :: "SearchServer \<Rightarrow> bool" where
  "index_wf s =
     ((\<forall>d. (map_of (documents s) d \<noteq> None) = (d \<in> document_ids s))
      \<and> (\<forall>d. d \<notin> document_ids s \<longrightarrow> map_of (document_to_word_freqs s) d = None))"

text \<open>Every term stored for a document is a term under which the document is indexed.\<close>

definition words_indexed :: "SearchServer \<Rightarrow> bool" where
  "words_indexed s =
     (\<forall>d w. freq_by_document s d w \<noteq> None \<longrightarrow> freq_by_word s w d \<noteq> None)"

text \<open>The order the spec asks of two neighbouring hits.\<close>

definition in_rank_order :: "Document \<Rightarrow> Document \<Rightarrow> bool" where
  "in_rank_order earlier later =
     (doc_relevance earlier > doc_relevance later
      \<or> (\<bar>doc_relevance earlier - doc_relevance later\<bar> < EPSILON
         \<and> doc_rating earlier \<ge> doc_rating later))"

subsection \<open>Concrete runs\<close>

text \<open>Two documents added, the second removed again while its views still read as stored.\<close>

definition example_ops :: "operation list" where
  "example_ops =
     [Add 1 ''cat and dog cat'' ACTUAL [8, - 3], Add 2 ''dog'' BANNED [5], Remove (\<lambda>v. v) 2]"

definition example_server :: SearchServer where
  "example_server =
     \<lparr>stop_words = {''and''},
      word_to_document_freqs = [(''cat'', [(1, 2 / 3)]), (''dog'', [(1, 1 / 3)])],
      document_to_word_freqs = [(1, [(''cat'', 2 / 3), (''dog'', 1 / 3)])],
      documents = [(1, \<lparr>rating = 2, status = ACTUAL\<rparr>)],
      document_ids = {1}\<rparr>"

text \<open>A server holding the single document \<open>cat\<close>.\<close>

definition cat_server :: SearchServer where
  "cat_server =
     \<lparr>stop_words = {},
      word_to_document_freqs = [(''cat'', [(1, 1)])],
      document_to_word_freqs = [(1, [(''cat'', 1)])],
      documents = [(1, \<lparr>rating = 5, status = ACTUAL\<rparr>)],
      document_ids = {1}\<rparr>"

text \<open>A server holding a document without any word.\<close>

definition empty_document_server :: SearchServer where
  "empty_document_server =
     \<lparr>stop_words = {}, word_to_document_freqs = [], document_to_word_freqs = [],
      documents = [(0, \<lparr>rating = 1, status = ACTUAL\<rparr>)], document_ids = {0}\<rparr>"

text \<open>
  Three documents are added and the first is removed. By then the storage of the vector
  \<open>words\<close> of the first \<open>AddDocument\<close> has been released and used again, and the two views
  of document 1 yield the words of the document added last.
\<close>

definition reused_storage :: "string_view \<Rightarrow> string" where
  "reused_storage v = (if v = ''cat'' then ''gnu'' else if v = ''dog'' then ''hen'' else v)"

definition stale_ops :: "operation list" where
  "stale_ops =
     [Add 1 ''cat dog'' ACTUAL [1], Add 2 ''emu fox'' ACTUAL [2], Add 3 ''gnu hen'' ACTUAL [3],
      Remove reused_storage 1]"

definition stale_server :: SearchServer where
  "stale_server =
     \<lparr>stop_words = {},
      word_to_document_freqs =
        [(''cat'', [(1, 1 / 2)]), (''dog'', [(1, 1 / 2)]), (''emu'', [(2, 1 / 2)]),
         (''fox'', [(2, 1 / 2)]), (''gnu'', [(3, 1 / 2)]), (''hen'', [(3, 1 / 2)])],
      document_to_word_freqs =
        [(2, [(''emu'', 1 / 2), (''fox'', 1 / 2)]), (3, [(''gnu'', 1 / 2), (''hen'', 1 / 2)])],
      documents = [(2, \<lparr>rating = 2, status = ACTUAL\<rparr>), (3, \<lparr>rating = 3, status = ACTUAL\<rparr>)],
      document_ids = {2, 3}\<rparr>"



definition close_server :: SearchServer where
  "close_server =
     \<lparr>stop_words = {},
      word_to_document_freqs =
        [(''a'', [(1, 999 / 1000), (2, 1000 / 1001)]),
         (''cat'', [(1, 1 / 1000), (2, 1 / 1001), (3, 1)]),
         (''dog'', [(4, 1)])],
      document_to_word_freqs =
        [(1, [(''a'', 999 / 1000), (''cat'', 1 / 1000)]),
         (2, [(''a'', 1000 / 1001), (''cat'', 1 / 1001)]),
         (3, [(''cat'', 1)]), (4, [(''dog'', 1)])],
      documents =
        [(1, \<lparr>rating = 1, status = ACTUAL\<rparr>), (2, \<lparr>rating = 5, status = ACTUAL\<rparr>),
         (3, \<lparr>rating = 3, status = ACTUAL\<rparr>), (4, \<lparr>rating = 4, status = ACTUAL\<rparr>)],
      document_ids = {1, 2, 3, 4}\<rparr>"

text \<open>
  Six documents holding \<open>cat\<close>, four of them with the same relevance and different
  ratings, and one document without it.
\<close>

definition rank_ops :: "operation list" where
  "rank_ops =
     [Add 1 ''cat'' ACTUAL [1], Add 2 ''cat'' ACTUAL [4], Add 3 ''cat fish'' ACTUAL [9],
      Add 4 ''cat'' ACTUAL [2], Add 5 ''cat fish'' ACTUAL [3], Add 6 ''cat'' ACTUAL [7],
      Add 7 ''dog'' ACTUAL [5]]"

definition rank_server :: SearchServer where
  "rank_server =
     \<lparr>stop_words = {},
      word_to_document_freqs =
        [(''cat'', [(1, 1), (2, 1), (3, 1 / 2), (4, 1), (5, 1 / 2), (6, 1)]),
         (''dog'', [(7, 1)]),
         (''fish'', [(3, 1 / 2), (5, 1 / 2)])],
      document_to_word_freqs =
        [(1, [(''cat'', 1)]), (2, [(''cat'', 1)]), (3, [(''cat'', 1 / 2), (''fish'', 1 / 2)]),
         (4, [(''cat'', 1)]), (5, [(''cat'', 1 / 2), (''fish'', 1 / 2)]), (6, [(''cat'', 1)]),
         (7, [(''dog'', 1)])],
      documents =
        [(1, \<lparr>rating = 1, status = ACTUAL\<rparr>), (2, \<lparr>rating = 4, status = ACTUAL\<rparr>),
         (3, \<lparr>rating = 9, status = ACTUAL\<rparr>), (4, \<lparr>rating = 2, status = ACTUAL\<rparr>),
         (5, \<lparr>rating = 3, status = ACTUAL\<rparr>), (6, \<lparr>rating = 7, status = ACTUAL\<rparr>),
         (7, \<lparr>rating = 5, status = ACTUAL\<rparr>)],
      document_ids = {1, 2, 3, 4, 5, 6, 7}\<rparr>"
section \<open>Properties\<close>

subsection \<open>Ordered maps\<close>

lemma map_of_map_put: "map_of (map_put k v m) = (map_of m)(k \<mapsto> v)"
  by (induction m) (auto simp: fun_eq_iff)

lemma map_of_map_erase: "map_of (map_erase k m) = (map_of m)(k := None)"
  by (induction m) (auto simp: map_erase_def fun_eq_iff)

lemma map_erase_absent: "map_of m k = None \<Longrightarrow> map_erase k m = m"
  by (induction m) (auto simp: map_erase_def split: if_splits)

lemmas eval_defs =
  AddDocument_def SplitIntoWordsNoStop_def SplitIntoWords_def SearchServer_new_def
  IsValidWord_def IsStopWord_def ComputeAverageRating_def wrap32_def add_word_def map_get_def
  map_emplace_def Let_def

lemmas remove_defs =
  RemoveDocument_def RemoveDocument_seq_def RemoveDocument_par_def GetWordFrequencies_def
  erase_doc_from_word_def erase_document_def map_erase_def

subsection \<open>The stored rating\<close>

lemma wrap32_id: "int32 x \<Longrightarrow> wrap32 x = x"
  by (simp add: int32_def wrap32_def)

lemma sums_fit_start: "sums_fit a rs \<Longrightarrow> int32 a"
  by (cases rs) auto

lemma fold_wrap32_sum:
  "sums_fit a rs \<Longrightarrow> fold (\<lambda>rating acc. wrap32 (acc + rating)) rs a = a + sum_list rs"
proof (induction rs arbitrary: a)
  case Nil
  then show ?case by simp
next
  case (Cons r rs)
  from Cons.prems have fit: "sums_fit (a + r) rs" by simp
  then have "int32 (a + r)" by (rule sums_fit_start)
  then have "wrap32 (a + r) = a + r" by (rule wrap32_id)
  with Cons.IH [OF fit] show ?case by (simp add: add.assoc)
qed

lemma ComputeAverageRating_mean:
  assumes "sums_fit 0 ratings" and "ratings \<noteq> []" and "length ratings < 2147483648"
  shows "ComputeAverageRating ratings = Inr (sum_list ratings sdiv int (length ratings))"
proof -
  have s: "fold (\<lambda>rating acc. wrap32 (acc + rating)) ratings 0 = sum_list ratings"
    using fold_wrap32_sum [OF assms(1)] by simp
  have "int32 (int (length ratings))" using assms(3) by (simp add: int32_def)
  then have n: "wrap32 (int (length ratings)) = int (length ratings)" by (rule wrap32_id)
  have pos: "0 < int (length ratings)" using assms(2) by simp
  show ?thesis
    unfolding ComputeAverageRating_def Let_def s n using pos by auto
qed

lemma fold_add_word_documents [simp]:
  "documents (fold (add_word d x) ws s) = documents s"
  by (induction ws arbitrary: s) (auto simp: add_word_def Let_def)

lemma fold_add_word_document_ids [simp]:
  "document_ids (fold (add_word d x) ws s) = document_ids s"
  by (induction ws arbitrary: s) (auto simp: add_word_def Let_def)

lemma fold_add_word_stop_words [simp]:
  "stop_words (fold (add_word d x) ws s) = stop_words s"
  by (induction ws arbitrary: s) (auto simp: add_word_def Let_def)

text \<open>
  C8, as stated, fails: the sum of the ratings is accumulated in a 32-bit \<open>int\<close>. For the
  ratings 2147483647 and 1 the mean truncated toward zero is 1073741824, and the rating
  that \<open>AddDocument\<close> stores is -1073741824.
\<close>

theorem AddDocument_rating_overflow_counterexample:
  "map_of (documents (snd (AddDocument SplitIntoWords (SearchServer_new {}) 1 ''cat'' ACTUAL
             [2147483647, 1]))) 1
     = Some \<lparr>rating = - 1073741824, status = ACTUAL\<rparr>
   \<and> sum_list [2147483647, 1] sdiv int (length [2147483647, 1 :: int]) = 1073741824"
  by (simp add: eval_defs)

text \<open>
  C8, amended: when \<open>AddDocument\<close> returns normally, for fewer than 2^31 ratings whose
  running sums all are \<open>int\<close> values, the rating stored for the new document is the sum
  of the ratings divided by their number, truncated toward zero.
\<close>

theorem AddDocument_rating_truncated_mean:
  assumes ok: "AddDocument split s document_id document st ratings = (None, s')"
    and fit: "sums_fit 0 ratings"
    and len: "length ratings < 2147483648"
  shows "map_of (documents s') document_id =
           Some \<lparr>rating = sum_list ratings sdiv int (length ratings), status = st\<rparr>"
proof -
  have ne: "ratings \<noteq> []"
  proof
    assume "ratings = []"
    then have "ComputeAverageRating ratings = Inl division_by_zero"
      by (simp add: ComputeAverageRating_def wrap32_def)
    with ok show False
      by (auto simp: AddDocument_def Let_def split: if_splits sum.splits)
  qed
  have avg: "ComputeAverageRating ratings = Inr (sum_list ratings sdiv int (length ratings))"
    by (rule ComputeAverageRating_mean [OF fit ne len])
  from ok avg show ?thesis
    by (auto simp: AddDocument_def Let_def map_emplace_def map_of_map_put
             split: if_splits sum.splits)
qed

theorem AddDocument_rating_truncated_mean_witness:
  "map_of (documents (snd (AddDocument SplitIntoWords (SearchServer_new {}) 1 ''cat'' ACTUAL
             [- 7, 2]))) 1
     = Some \<lparr>rating = - 2, status = ACTUAL\<rparr>"
proof -
  have ok: "AddDocument SplitIntoWords (SearchServer_new {}) 1 ''cat'' ACTUAL [- 7, 2]
     = (None, snd (AddDocument SplitIntoWords (SearchServer_new {}) 1 ''cat'' ACTUAL [- 7, 2]))"
    by (simp add: eval_defs)
  have fit: "sums_fit 0 [- 7, 2]" by (simp add: int32_def)
  show ?thesis using AddDocument_rating_truncated_mean [OF ok fit] by simp
qed

subsection \<open>The effect of the operations on the two frequency maps\<close>

lemma freq_by_word_add_word:
  "freq_by_word (add_word d x w s) w' d' =
     (if w' = w \<and> d' = d
      then Some ((case freq_by_word s w d of None \<Rightarrow> 0 | Some v \<Rightarrow> v) + x)
      else freq_by_word s w' d')"
  by (auto simp: freq_by_word_def add_word_def Let_def map_of_map_put map_get_def
           split: option.splits)

lemma freq_by_document_add_word:
  "freq_by_document (add_word d x w s) d' w' =
     (if w' = w \<and> d' = d
      then Some ((case freq_by_document s d w of None \<Rightarrow> 0 | Some v \<Rightarrow> v) + x)
      else freq_by_document s d' w')"
  by (auto simp: freq_by_document_def add_word_def Let_def map_of_map_put map_get_def
           split: option.splits)

lemma freq_by_word_erase_doc_from_word:
  "freq_by_word (erase_doc_from_word d w s) w' d' =
     (if w' = w \<and> d' = d then None else freq_by_word s w' d')"
  by (auto simp: freq_by_word_def erase_doc_from_word_def map_of_map_put map_of_map_erase
                 map_get_def split: option.splits)

lemma erase_doc_from_word_fields [simp]:
  "document_to_word_freqs (erase_doc_from_word d w s) = document_to_word_freqs s"
  "documents (erase_doc_from_word d w s) = documents s"
  "document_ids (erase_doc_from_word d w s) = document_ids s"
  "stop_words (erase_doc_from_word d w s) = stop_words s"
  by (simp_all add: erase_doc_from_word_def)

lemma fold_erase_doc_from_word_fields [simp]:
  "document_to_word_freqs (fold (erase_doc_from_word d) ws s) = document_to_word_freqs s"
  "documents (fold (erase_doc_from_word d) ws s) = documents s"
  "document_ids (fold (erase_doc_from_word d) ws s) = document_ids s"
  "stop_words (fold (erase_doc_from_word d) ws s) = stop_words s"
  by (induction ws arbitrary: s) simp_all

lemma freq_by_word_fold_erase:
  "freq_by_word (fold (erase_doc_from_word d) ws s) w' d' =
     (if w' \<in> set ws \<and> d' = d then None else freq_by_word s w' d')"
  by (induction ws arbitrary: s) (auto simp: freq_by_word_erase_doc_from_word)

lemma freq_by_document_cong:
  "document_to_word_freqs s = document_to_word_freqs s' \<Longrightarrow>
   freq_by_document s = freq_by_document s'"
  by (simp add: freq_by_document_def fun_eq_iff)

lemma freq_by_word_erase_document [simp]:
  "freq_by_word (erase_document d s) = freq_by_word s"
  by (simp add: freq_by_word_def erase_document_def fun_eq_iff)

lemma freq_by_document_erase_document:
  "freq_by_document (erase_document d s) d' w' =
     (if d' = d then None else freq_by_document s d' w')"
  by (simp add: freq_by_document_def erase_document_def map_of_map_erase)

lemma freq_by_word_erase_visited:
  "freq_by_word (erase_document d (fold (erase_doc_from_word d) ws s)) w' d' =
     (if w' \<in> set ws \<and> d' = d then None else freq_by_word s w' d')"
  by (simp add: freq_by_word_fold_erase)

lemma freq_by_document_erase_visited:
  "freq_by_document (erase_document d (fold (erase_doc_from_word d) ws s)) d' w' =
     (if d' = d then None else freq_by_document s d' w')"
proof -
  have "freq_by_document (fold (erase_doc_from_word d) ws s) = freq_by_document s"
    by (rule freq_by_document_cong) simp
  then show ?thesis by (simp add: freq_by_document_erase_document)
qed

subsection \<open>Invariants of the index\<close>

lemma map_of_d2w_fold_add_word:
  "map_of (document_to_word_freqs (fold (add_word d x) ws s)) d' =
     (if d' = d \<and> ws \<noteq> []
      then map_of (document_to_word_freqs (fold (add_word d x) ws s)) d
      else map_of (document_to_word_freqs s) d')"
proof (induction ws arbitrary: s)
  case Nil
  show ?case by simp
next
  case (Cons w ws)
  have "map_of (document_to_word_freqs (add_word d x w s)) d' =
          map_of (document_to_word_freqs s) d'" if "d' \<noteq> d"
    using that by (simp add: add_word_def Let_def map_of_map_put)
  with Cons.IH [of "add_word d x w s"] show ?case by auto
qed

lemma AddDocument_ok_D:
  assumes "AddDocument split s d doc st ratings = (None, s')"
  obtains ws r where
    "\<not> d < 0" "map_of (documents s) d = None"
    "SplitIntoWordsNoStop split s doc = Inr ws"
    "ComputeAverageRating ratings = Inr r"
    "s' = (fold (add_word d (1 / real (length ws))) ws s)
            \<lparr>documents := map_put d \<lparr>rating = r, status = st\<rparr> (documents s),
             document_ids := insert d (document_ids s)\<rparr>"
  using assms
  by (auto simp: AddDocument_def Let_def map_emplace_def split: if_splits sum.splits)

lemma AddDocument_threw_unchanged:
  assumes "AddDocument split s d doc st ratings = (Some e, s')" and "e \<noteq> division_by_zero"
  shows "s' = s"
proof -
  have "e' = division_by_zero" if "ComputeAverageRating ratings = Inl e'" for e'
    using that by (auto simp: ComputeAverageRating_def Let_def split: if_splits)
  with assms show ?thesis
    by (auto simp: AddDocument_def Let_def split: if_splits sum.splits)
qed

lemma AddDocument_cases:
  obtains (ok) s' where "AddDocument split s d doc st ratings = (None, s')"
  | (threw) e where "AddDocument split s d doc st ratings = (Some e, s)" "e \<noteq> division_by_zero"
  | (fault) s' where "AddDocument split s d doc st ratings = (Some division_by_zero, s')"
proof (cases "AddDocument split s d doc st ratings")
  case (Pair r s')
  show ?thesis
  proof (cases r)
    case None
    with Pair ok show ?thesis by simp
  next
    case (Some e)
    show ?thesis
    proof (cases "e = division_by_zero")
      case True
      with Pair Some fault show ?thesis by simp
    next
      case False
      from Pair Some have "AddDocument split s d doc st ratings = (Some e, s')" by simp
      from AddDocument_threw_unchanged [OF this False] have "s' = s" .
      with Pair Some have "AddDocument split s d doc st ratings = (Some e, s)" by simp
      with False threw show ?thesis by simp
    qed
  qed
qed

text \<open>
  An invariant \<open>P\<close> that a successful \<open>AddDocument\<close> and the common body of the
  \<open>RemoveDocument\<close> overloads preserve holds after every sequence of operations.
\<close>

lemma run_invariant:
  assumes add: "\<And>s d doc st ratings s'.
      P s \<Longrightarrow> AddDocument split s d doc st ratings = (None, s') \<Longrightarrow> P s'"
    and remove: "\<And>s d ws. P s \<Longrightarrow> P (erase_document d (fold (erase_doc_from_word d) ws s))"
    and start: "P s" and run: "run split s ops = Some s'"
  shows "P s'"
  using start run
proof (induction ops arbitrary: s)
  case Nil
  then show ?case by simp
next
  case (Cons op ops)
  from Cons.prems(2) obtain s1 where 1: "apply_op split s op = Some s1"
    and 2: "run split s1 ops = Some s'"
    by (auto split: option.splits)
  have "P s1"
  proof (cases op)
    case (Add d doc st ratings)
    show ?thesis
    proof (cases rule: AddDocument_cases [of split s d doc st ratings])
      case (ok s'')
      with 1 Add add [OF Cons.prems(1) ok] show ?thesis by simp
    next
      case (threw e)
      with 1 Add Cons.prems(1) show ?thesis by simp
    next
      case (fault s'')
      with 1 Add show ?thesis by simp
    qed
  next
    case (Remove reads d)
    with 1 remove [OF Cons.prems(1)] show ?thesis by (auto simp: RemoveDocument_def)
  next
    case (RemoveSeq reads d)
    with 1 remove [OF Cons.prems(1)] show ?thesis
      by (auto simp: RemoveDocument_seq_def RemoveDocument_def)
  next
    case (RemovePar reads sched d)
    with 1 remove [OF Cons.prems(1)] show ?thesis
      by (auto simp: RemoveDocument_par_def Let_def)
  qed
  from Cons.IH [OF this 2] show ?case .
qed

lemma index_wf_AddDocument:
  assumes wf: "index_wf s" and ok: "AddDocument split s d doc st ratings = (None, s')"
  shows "index_wf s'"
proof -
  from ok obtain ws r where
    s': "s' = (fold (add_word d (1 / real (length ws))) ws s)
            \<lparr>documents := map_put d \<lparr>rating = r, status = st\<rparr> (documents s),
             document_ids := insert d (document_ids s)\<rparr>"
    by (rule AddDocument_ok_D)
  have "(map_of (documents s') d' \<noteq> None) = (d' \<in> document_ids s')" for d'
    using wf by (simp add: s' map_of_map_put index_wf_def)
  moreover have "map_of (document_to_word_freqs s') d' = None" if "d' \<notin> document_ids s'" for d'
  proof -
    from that have "d' \<noteq> d" and "d' \<notin> document_ids s" by (simp_all add: s')
    with wf map_of_d2w_fold_add_word [of d "1 / real (length ws)" ws s d'] show ?thesis
      by (simp add: s' index_wf_def)
  qed
  ultimately show ?thesis by (simp add: index_wf_def)
qed

lemma index_wf_erase_visited:
  "index_wf s \<Longrightarrow> index_wf (erase_document d (fold (erase_doc_from_word d) ws s))"
  by (auto simp: index_wf_def erase_document_def map_of_map_erase)

lemma index_wf_new: "index_wf (SearchServer_new stops)"
  by (simp add: index_wf_def SearchServer_new_def)

lemma index_wf_run: "run split (SearchServer_new stops) ops = Some s \<Longrightarrow> index_wf s"
  by (rule run_invariant [where P = index_wf, OF index_wf_AddDocument index_wf_erase_visited
        index_wf_new])

lemma words_indexed_fold_add_word:
  "words_indexed s \<Longrightarrow> words_indexed (fold (add_word d x) ws s)"
proof (induction ws arbitrary: s)
  case Nil
  then show ?case by simp
next
  case (Cons w ws)
  from Cons.prems have "words_indexed (add_word d x w s)"
    by (simp add: words_indexed_def freq_by_word_add_word freq_by_document_add_word)
  from Cons.IH [OF this] show ?case by simp
qed

lemma words_indexed_AddDocument:
  assumes "words_indexed s" and ok: "AddDocument split s d doc st ratings = (None, s')"
  shows "words_indexed s'"
proof -
  from ok obtain ws r where
    s': "s' = (fold (add_word d (1 / real (length ws))) ws s)
            \<lparr>documents := map_put d \<lparr>rating = r, status = st\<rparr> (documents s),
             document_ids := insert d (document_ids s)\<rparr>"
    by (rule AddDocument_ok_D)
  from words_indexed_fold_add_word [OF assms(1), of d "1 / real (length ws)" ws]
  show ?thesis
    by (simp add: s' words_indexed_def freq_by_word_def freq_by_document_def)
qed

lemma words_indexed_erase_visited:
  "words_indexed s \<Longrightarrow> words_indexed (erase_document d (fold (erase_doc_from_word d) ws s))"
  by (simp add: words_indexed_def freq_by_word_fold_erase freq_by_document_erase_visited)

lemma words_indexed_new: "words_indexed (SearchServer_new stops)"
  by (simp add: words_indexed_def SearchServer_new_def freq_by_document_def)

lemma words_indexed_run: "run split (SearchServer_new stops) ops = Some s \<Longrightarrow> words_indexed s"
  by (rule run_invariant [where P = words_indexed, OF words_indexed_AddDocument
        words_indexed_erase_visited words_indexed_new])

lemma run_example:
  "run SplitIntoWords (SearchServer_new {''and''}) example_ops = Some example_server"
  by (simp add: example_ops_def example_server_def eval_defs remove_defs)

subsection \<open>Documents that are not live\<close>

lemma erase_document_absent:
  assumes "map_of (document_to_word_freqs s) d = None" and "map_of (documents s) d = None"
    and "d \<notin> document_ids s"
  shows "erase_document d s = s"
  using assms by (simp add: erase_document_def map_erase_absent)

text \<open>
  C10: after every finite sequence of \<open>AddDocument\<close> and \<open>RemoveDocument\<close> calls, each
  overload of \<open>RemoveDocument\<close>, called with a document id that is not live, returns the
  server unchanged: the two frequency maps, the document store and the id set are as
  before. None of the overloads has a throw on its path.
\<close>

theorem RemoveDocument_not_live_noop:
  assumes "run split (SearchServer_new stops) ops = Some s" and "document_id \<notin> document_ids s"
  shows "RemoveDocument reads s document_id = s
       \<and> RemoveDocument_seq reads s document_id = s
       \<and> RemoveDocument_par reads sched s document_id = s"
proof -
  have wf: "index_wf s" by (rule index_wf_run [OF assms(1)])
  from wf assms(2) have d2w: "map_of (document_to_word_freqs s) document_id = None"
    and docs: "map_of (documents s) document_id = None"
    by (auto simp: index_wf_def)
  have no_words: "GetWordFrequencies s document_id = []"
    by (simp add: GetWordFrequencies_def map_get_def d2w)
  have e: "erase_document document_id s = s"
    by (rule erase_document_absent [OF d2w docs assms(2)])
  have plain: "RemoveDocument reads s document_id = s"
    unfolding RemoveDocument_def no_words by (simp add: e)
  have par: "RemoveDocument_par reads sched s document_id = s"
    unfolding RemoveDocument_par_def no_words by (simp add: e)
  from plain par show ?thesis by (simp add: RemoveDocument_seq_def)
qed

theorem RemoveDocument_not_live_noop_witness:
  "RemoveDocument reused_storage example_server 2 = example_server
   \<and> RemoveDocument_seq reused_storage example_server 2 = example_server
   \<and> RemoveDocument_par reused_storage [''dog''] example_server 2 = example_server"
proof -
  have "2 \<notin> document_ids example_server" by (simp add: example_server_def)
  from RemoveDocument_not_live_noop [OF run_example this] show ?thesis .
qed

subsection \<open>Removal through views that no longer read as stored\<close>

text \<open>
  When a view of the removed document yields other characters than a word of the
  document, \<open>RemoveDocument\<close> leaves the document under that word in
  \<open>word_to_document_freqs_\<close> and erases its entry of \<open>document_to_word_freqs_\<close>.
\<close>

lemma RemoveDocument_leaves_stale_entry:
  assumes "freq_by_word s word document_id = Some f"
    and "word \<notin> set (map reads (map fst (GetWordFrequencies s document_id)))"
  shows "freq_by_word (RemoveDocument reads s document_id) word document_id = Some f
       \<and> freq_by_document (RemoveDocument reads s document_id) document_id word = None"
  using assms
  by (simp add: RemoveDocument_def freq_by_word_fold_erase freq_by_document_erase_visited)

text \<open>With views that read as stored, the same removal leaves no entry of document 1.\<close>

lemma RemoveDocument_intact_views:
  "run SplitIntoWords (SearchServer_new {})
     [Add 1 ''cat dog'' ACTUAL [1], Add 2 ''emu fox'' ACTUAL [2], Add 3 ''gnu hen'' ACTUAL [3],
      Remove (\<lambda>v. v) 1]
   = Some (stale_server\<lparr>word_to_document_freqs :=
        [(''cat'', []), (''dog'', []), (''emu'', [(2, 1 / 2)]), (''fox'', [(2, 1 / 2)]),
         (''gnu'', [(3, 1 / 2)]), (''hen'', [(3, 1 / 2)])]\<rparr>)"
  by (simp add: stale_server_def eval_defs remove_defs insert_commute)

text \<open>
  C2 on the calls \<open>AddDocument(1, "cat dog")\<close>, \<open>AddDocument(2, "emu fox")\<close>,
  \<open>AddDocument(3, "gnu hen")\<close>, \<open>RemoveDocument(1)\<close>, when the views of document 1 yield
  \<open>gnu\<close> and \<open>hen\<close> at the removal: afterwards \<open>word_to_document_freqs_\<close> has the pair
  (\<open>cat\<close>, 1) with frequency 1/2, and \<open>document_to_word_freqs_\<close> has no entry for it.
\<close>

theorem RemoveDocument_stale_views_break_consistency:
  "run SplitIntoWords (SearchServer_new {}) stale_ops = Some stale_server
   \<and> freq_by_word stale_server ''cat'' 1 = Some (1 / 2)
   \<and> freq_by_document stale_server 1 ''cat'' = None"
  by (simp add: stale_ops_def stale_server_def reused_storage_def eval_defs remove_defs
        freq_by_word_def freq_by_document_def insert_commute)

subsection \<open>A document without words\<close>

text \<open>
  \<open>AddDocument\<close> accepts a text without any word (empty, or stop words only): the document
  is live and has no entry in \<open>document_to_word_freqs_\<close>, so that \<open>GetWordFrequencies\<close>
  returns the empty map for it.
\<close>

lemma empty_document_has_no_frequencies:
  "run SplitIntoWords (SearchServer_new {}) [Add 0 [] ACTUAL [1]] = Some empty_document_server
   \<and> 0 \<in> document_ids empty_document_server
   \<and> GetWordFrequencies empty_document_server 0 = []"
  by (simp add: eval_defs empty_document_server_def GetWordFrequencies_def)

subsection \<open>\<open>AddDocument\<close> with an empty list of ratings\<close>

text \<open>
  With a list of ratings that has an average, \<open>AddDocument\<close> fails exactly when the id is
  negative or present or a token of the text is invalid, and a failing call leaves the
  server as it was.
\<close>

lemma no_stop_loop_fails_iff:
  "no_stop_loop s ws = Inl invalid_argument \<longleftrightarrow> list_ex (\<lambda>w. \<not> IsValidWord w) ws"
  by (induction ws) (auto split: sum.splits)

lemma no_stop_loop_error: "no_stop_loop s ws = Inl e \<Longrightarrow> e = invalid_argument"
  by (induction ws arbitrary: e) (auto split: sum.splits if_splits)

lemma AddDocument_fails_iff:
  assumes "ComputeAverageRating ratings = Inr r"
  shows "fst (AddDocument split s d doc st ratings) \<noteq> None
         \<longleftrightarrow> d < 0 \<or> map_of (documents s) d \<noteq> None
             \<or> list_ex (\<lambda>w. \<not> IsValidWord w) (split doc)"
proof (cases "SplitIntoWordsNoStop split s doc")
  case (Inl e)
  then have "no_stop_loop s (split doc) = Inl invalid_argument"
    using no_stop_loop_error [of s "split doc" e] by (simp add: SplitIntoWordsNoStop_def)
  then have "list_ex (\<lambda>w. \<not> IsValidWord w) (split doc)"
    by (simp add: no_stop_loop_fails_iff)
  with Inl show ?thesis by (simp add: AddDocument_def)
next
  case (Inr ws)
  then have "no_stop_loop s (split doc) \<noteq> Inl invalid_argument"
    by (simp add: SplitIntoWordsNoStop_def)
  then have "\<not> list_ex (\<lambda>w. \<not> IsValidWord w) (split doc)"
    by (simp add: no_stop_loop_fails_iff)
  with Inr assms show ?thesis by (simp add: AddDocument_def Let_def)
qed

lemma AddDocument_fails_unchanged:
  assumes "ComputeAverageRating ratings = Inr r"
    and "fst (AddDocument split s d doc st ratings) \<noteq> None"
  shows "snd (AddDocument split s d doc st ratings) = s"
  using assms by (auto simp: AddDocument_def Let_def split: if_splits sum.splits)

text \<open>
  C7 on the input \<open>AddDocument(1, "cat", ACTUAL, {})\<close>, a new server: the id is neither
  negative nor present and the text has no invalid token, yet the call does not return
  normally. It ends in the division by zero of \<open>ComputeAverageRating\<close>, reached after
  the loop has written both frequency maps.
\<close>

theorem AddDocument_empty_ratings_fault:
  "AddDocument SplitIntoWords (SearchServer_new {}) 1 ''cat'' ACTUAL []
     = (Some division_by_zero,
        \<lparr>stop_words = {}, word_to_document_freqs = [(''cat'', [(1, 1)])],
         document_to_word_freqs = [(1, [(''cat'', 1)])], documents = [], document_ids = {}\<rparr>)"
  by (simp add: eval_defs)

subsection \<open>\<open>MatchDocument\<close> and its static query\<close>

lemma run_cat:
  "run SplitIntoWords (SearchServer_new {}) [Add 1 ''cat'' ACTUAL [5]] = Some cat_server"
  by (simp add: cat_server_def eval_defs)

lemmas match_defs =
  MatchDocument_def MatchDocument_seq_def MatchDocument_par_def match_plain_def
  match_parallel_def ParseQuery_def ParseQueryWord_def IsValidWord_def IsStopWord_def
  SplitIntoWords_def word_in_document_def statics_initial_def Let_def

text \<open>
  C1 on the server holding document 1 = \<open>cat\<close>: after a first call with the query \<open>cat\<close>,
  a call with the query \<open>dog\<close> returns the matched word \<open>cat\<close>, where a first-ever call
  with \<open>dog\<close> returns no matched word; in the plain (and so the sequenced) overload and
  in the parallel one.
\<close>

theorem MatchDocument_reuses_first_query:
  "fst (MatchDocument SplitIntoWords cat_server
          (snd (MatchDocument SplitIntoWords cat_server statics_initial ''cat'' 1)) ''dog'' 1)
     = Inr ([''cat''], ACTUAL)
   \<and> fst (MatchDocument SplitIntoWords cat_server statics_initial ''dog'' 1) = Inr ([], ACTUAL)
   \<and> fst (MatchDocument_seq SplitIntoWords cat_server
          (snd (MatchDocument_seq SplitIntoWords cat_server statics_initial ''cat'' 1)) ''dog'' 1)
     = Inr ([''cat''], ACTUAL)
   \<and> fst (MatchDocument_par SplitIntoWords cat_server
          (snd (MatchDocument_par SplitIntoWords cat_server statics_initial ''cat'' 1)) ''dog'' 1)
     = Inr ([''cat''], ACTUAL)
   \<and> fst (MatchDocument_par SplitIntoWords cat_server statics_initial ''dog'' 1)
     = Inr ([], ACTUAL)"
  by (simp add: match_defs cat_server_def)

text \<open>
  A first call does look at the minus words of its query: on a document that contains
  one of them it returns no matched word.
\<close>

lemma MatchDocument_first_call_excluded:
  assumes run: "run split (SearchServer_new stops) ops = Some s"
    and query: "ParseQuery split s raw_query True = Inr query"
    and minus: "word \<in> set (minus_words query)"
    and contains: "freq_by_document s document_id word \<noteq> None"
  shows "fst (MatchDocument split s statics_initial raw_query document_id)
           = Inr ([], status (the (map_of (documents s) document_id)))"
proof -
  have "words_indexed s" by (rule words_indexed_run [OF run])
  with contains have "freq_by_word s word document_id \<noteq> None"
    by (simp add: words_indexed_def)
  then have "word_in_document s document_id word"
    by (simp add: word_in_document_def freq_by_word_def split: option.splits)
  with minus have ex: "list_ex (word_in_document s document_id) (minus_words query)"
    by (auto simp: list_ex_iff)
  have wf: "index_wf s" by (rule index_wf_run [OF run])
  from contains have "map_of (document_to_word_freqs s) document_id \<noteq> None"
    by (auto simp: freq_by_document_def split: option.splits)
  with wf have live: "document_id \<in> document_ids s"
    by (auto simp: index_wf_def)
  with wf obtain document_data where "map_of (documents s) document_id = Some document_data"
    by (auto simp: index_wf_def)
  with live ex query show ?thesis
    by (simp add: MatchDocument_def statics_initial_def match_plain_def)
qed

text \<open>
  C6 on the same server: the query \<open>-cat\<close> parses to the excluded term \<open>cat\<close>, which the
  frequency map of document 1 contains; after a first call with the query \<open>cat\<close>,
  \<open>MatchDocument\<close> with the query \<open>-cat\<close> returns the matched word \<open>cat\<close>.
\<close>

theorem MatchDocument_ignores_minus_word:
  "ParseQuery SplitIntoWords cat_server ''-cat'' True
     = Inr \<lparr>plus_words = [], minus_words = [''cat'']\<rparr>
   \<and> freq_by_document cat_server 1 ''cat'' = Some 1
   \<and> fst (MatchDocument SplitIntoWords cat_server
          (snd (MatchDocument SplitIntoWords cat_server statics_initial ''cat'' 1)) ''-cat'' 1)
     = Inr ([''cat''], ACTUAL)"
  by (simp add: match_defs cat_server_def freq_by_document_def)

subsection \<open>The lock discipline of \<open>ConcurrentMap::Erase\<close>\<close>

text \<open>
  On a map with at least one bucket the first step of \<open>Erase\<close> is a \<open>find\<close> with no lock
  held.
\<close>

lemma Erase_breaks_lock_discipline:
  "megamap \<noteq> [] \<Longrightarrow> \<not> lock_discipline {} (snd (Erase megamap key))"
  by (cases megamap) (simp_all add: Erase_def Let_def)

text \<open>
  C9 on a map of two buckets that holds key 7 in bucket 1: \<open>Erase(7)\<close> calls \<open>find\<close> on
  the map of bucket 0 and on the map of bucket 1 before any lock is taken, and takes the
  lock of bucket 1 only around \<open>erase\<close>.
\<close>

theorem Erase_finds_without_lock:
  "select [[], [(7, 1 / 2)]] 7 = 1
   \<and> Erase [[], [(7, 1 / 2)]] 7
     = ([[], []], [Find 0 7, Find 1 7, Lock 1, EraseKey 1 7, Unlock 1])
   \<and> \<not> lock_discipline {} (snd (Erase [[], [(7, 1 / 2)]] 7))"
proof -
  have "select [[], [(7, 1 / 2)]] 7 = 1" by code_simp
  moreover have "Erase [[], [(7, 1 / 2)]] 7
     = ([[], []], [Find 0 7, Find 1 7, Lock 1, EraseKey 1 7, Unlock 1])"
    by (simp add: Erase_def map_erase_def)
  ultimately show ?thesis by simp
qed

subsection \<open>The contract of \<open>std::sort\<close>\<close>



lemma set_insert_by [simp]: "set (insert_by before x ys) = insert x (set ys)"
  by (induction ys) auto

lemma mset_insert_by [simp]: "mset (insert_by before x ys) = add_mset x (mset ys)"
  by (induction ys) auto





subsection \<open>Documents of many words\<close>









lemma documents_add_word [simp]: "documents (add_word d x w s) = documents s"
  by (simp add: add_word_def Let_def)

lemma document_ids_add_word [simp]: "document_ids (add_word d x w s) = document_ids s"
  by (simp add: add_word_def Let_def)



lemma run_rank_ops: "run SplitIntoWords (SearchServer_new {}) rank_ops = Some rank_server"
  by (simp add: rank_ops_def rank_server_def eval_defs insert_commute)

subsection \<open>The ranked result\<close>



lemmas find_defs =
  FindAllDocuments_def ParseQuery_def
  ParseQueryWord_def IsValidWord_def IsStopWord_def SplitIntoWords_def
  ComputeWordInverseDocumentFreq_def GetDocumentCount_def wrap32_def minus_step_def map_get_def
  map_erase_def Let_def

lemma ParseQuery_cat:
  "stop_words s = {} \<Longrightarrow>
   ParseQuery SplitIntoWords s ''cat'' True = Inr \<lparr>plus_words = [''cat''], minus_words = []\<rparr>"
  by (simp add: find_defs)

lemma FindAllDocuments_close_server:
  "FindAllDocuments close_server \<lparr>plus_words = [''cat''], minus_words = []\<rparr> (\<lambda>_ _ _. True)
     = Inr [\<lparr>doc_id = 1, doc_relevance = ln (4 / 3) / 1000, doc_rating = 1\<rparr>,
            \<lparr>doc_id = 2, doc_relevance = ln (4 / 3) / 1001, doc_rating = 5\<rparr>,
            \<lparr>doc_id = 3, doc_relevance = ln (4 / 3), doc_rating = 3\<rparr>]"
  by (simp add: find_defs close_server_def)


lemma ln_bounds:
  "1 / 4 \<le> ln (4 / 3 :: real)" "ln (4 / 3 :: real) \<le> 1 / 3" "1 / 7 \<le> ln (7 / 6 :: real)"
proof -
  have "ln (3 / 4 :: real) \<le> 3 / 4 - 1" by (rule ln_le_minus_one) simp
  moreover have "ln (3 / 4 :: real) = - ln (4 / 3)"
    using ln_inverse [of "4 / 3 :: real"] by simp
  ultimately show "1 / 4 \<le> ln (4 / 3 :: real)" by simp
  show "ln (4 / 3 :: real) \<le> 1 / 3"
    using ln_le_minus_one [of "4 / 3 :: real"] by simp
  have "ln (6 / 7 :: real) \<le> 6 / 7 - 1" by (rule ln_le_minus_one) simp
  moreover have "ln (6 / 7 :: real) = - ln (7 / 6)"
    using ln_inverse [of "7 / 6 :: real"] by simp
  ultimately show "1 / 7 \<le> ln (7 / 6 :: real)" by simp
qed



text \<open>
  An insertion sort leaves the same three hits in the order 3, 2, 1, in which every two
  neighbours are in the order asked for: what is returned on such hits is a matter of
  the sort at hand.
\<close>

lemma FindTopDocuments_close_server_insertion_sort:
  "FindTopDocuments insertion_sort SplitIntoWords close_server ''cat'' (\<lambda>_ _ _. True)
     = Inr [\<lparr>doc_id = 3, doc_relevance = ln (4 / 3), doc_rating = 3\<rparr>,
            \<lparr>doc_id = 2, doc_relevance = ln (4 / 3) / 1001, doc_rating = 5\<rparr>,
            \<lparr>doc_id = 1, doc_relevance = ln (4 / 3) / 1000, doc_rating = 1\<rparr>]
   \<and> in_rank_order \<lparr>doc_id = 3, doc_relevance = ln (4 / 3), doc_rating = 3\<rparr>
                    \<lparr>doc_id = 2, doc_relevance = ln (4 / 3) / 1001, doc_rating = 5\<rparr>
   \<and> in_rank_order \<lparr>doc_id = 2, doc_relevance = ln (4 / 3) / 1001, doc_rating = 5\<rparr>
                    \<lparr>doc_id = 1, doc_relevance = ln (4 / 3) / 1000, doc_rating = 1\<rparr>"
proof -
  have "stop_words close_server = {}" by (simp add: close_server_def)
  then show ?thesis
    using ln_bounds(1,2)
    by (simp add: FindTopDocuments_def ParseQuery_cat FindAllDocuments_close_server
          insertion_sort_def ranks_before_def in_rank_order_def EPSILON_def
          MAX_RESULT_DOCUMENT_COUNT_def)
qed





subsection \<open>Excluded terms in the ranked result\<close>

lemma keys_map_erase: "fst ` set (map_erase k m) = fst ` set m - {k}"
  by (auto simp: map_erase_def)

lemma keys_fold_map_erase: "fst ` set (fold map_erase ks m) = fst ` set m - set ks"
  by (induction ks arbitrary: m) (auto simp: keys_map_erase)

lemma keys_minus_step_subset: "fst ` set (minus_step s w m) \<subseteq> fst ` set m"
  by (auto simp: minus_step_def keys_fold_map_erase split: option.splits)

lemma keys_fold_minus_step_subset: "fst ` set (fold (minus_step s) ws m) \<subseteq> fst ` set m"
proof (induction ws arbitrary: m)
  case Nil
  show ?case by simp
next
  case (Cons w ws)
  from Cons.IH [of "minus_step s w m"] keys_minus_step_subset [of s w m]
  show ?case by auto
qed

lemma keys_fold_minus_step_excluded:
  assumes "word \<in> set ws" and "freq_by_word s word d \<noteq> None"
  shows "d \<notin> fst ` set (fold (minus_step s) ws m)"
  using assms(1)
proof (induction ws arbitrary: m)
  case Nil
  then show ?case by simp
next
  case (Cons w ws)
  show ?case
  proof (cases "w = word")
    case True
    from assms(2) obtain docs_of_word where
      w2d: "map_of (word_to_document_freqs s) word = Some docs_of_word"
      and "map_of docs_of_word d \<noteq> None"
      by (auto simp: freq_by_word_def split: option.splits)
    then have "d \<in> fst ` set docs_of_word"
      by (simp add: map_of_eq_None_iff)
    then have "d \<notin> fst ` set (minus_step s word m)"
      by (simp add: minus_step_def w2d keys_fold_map_erase)
    with keys_fold_minus_step_subset [of s ws "minus_step s word m"] True
    show ?thesis by auto
  next
    case False
    with Cons.prems have "word \<in> set ws" by simp
    from Cons.IH [OF this] show ?thesis by simp
  qed
qed

lemma emit_documents_ids: "emit_documents s m = Inr docs \<Longrightarrow> map doc_id docs = map fst m"
  by (induction s m arbitrary: docs rule: emit_documents.induct)
     (auto split: option.splits sum.splits)

text \<open>
  A document whose frequency map contains a minus word of the query is not among the
  hits of \<open>FindTopDocuments\<close>, for every \<open>std::sort\<close> that returns elements of its input.
\<close>

lemma FindTopDocuments_excludes_minus_word:
  assumes run: "run split (SearchServer_new stops) ops = Some s"
    and srt: "\<forall>xs. set (srt ranks_before xs) \<subseteq> set xs"
    and query: "ParseQuery split s raw_query True = Inr query"
    and minus: "word \<in> set (minus_words query)"
    and contains: "freq_by_document s document_id word \<noteq> None"
    and hits: "FindTopDocuments srt split s raw_query document_predicate = Inr hits"
  shows "document_id \<notin> doc_id ` set hits"
proof -
  have "words_indexed s" by (rule words_indexed_run [OF run])
  with contains have by_word: "freq_by_word s word document_id \<noteq> None"
    by (simp add: words_indexed_def)
  from hits query obtain accumulated matched where
    m: "emit_documents s (fold (minus_step s) (minus_words query) accumulated) = Inr matched"
    and h: "set hits \<subseteq> set (srt ranks_before matched)"
    by (auto simp: FindTopDocuments_def FindAllDocuments_def Let_def
             split: sum.splits if_splits dest: in_set_takeD)
  from keys_fold_minus_step_excluded [OF minus by_word]
  have "document_id \<notin> fst ` set (fold (minus_step s) (minus_words query) accumulated)" .
  with emit_documents_ids [OF m] have "document_id \<notin> set (map doc_id matched)"
    by simp
  with h srt show ?thesis by auto
qed


end
